theory Spec2Isabelle
  imports Main "HOL-Library.Sublist"
begin

section \<open>The jar language-level validator (util/validate-jar-language-level.py)\<close>

text \<open>
  The script opens a jar (or the \<^verbatim>\<open>classes.jar\<close> nested in an aar), runs the
  disassembler on every class entry that is not ignored, reads the major version from
  its output and raises when a version differs from the expected one.

  Strings are lists of characters with code points below 256; in that range Python's
  \<^verbatim>\<open>\d\<close> matches exactly the ten ASCII digits. Everything outside the script is a
  parameter of the model: the file system, the name \<^verbatim>\<open>tempfile.mkdtemp\<close> returns and
  what a started process exits with and prints. Every operation on the outside is
  recorded in a log, in the order the script performs it.
\<close>

subsection \<open>Files, archives and the outside world\<close>

text \<open>
  A file is either a well-formed zip archive, given by its entries in stored order
  (\<^verbatim>\<open>ZipFile.infolist()\<close>), or any other sequence of bytes. An entry has the fields
  of \<^verbatim>\<open>ZipInfo\<close> the script reads: \<^verbatim>\<open>filename\<close>, \<^verbatim>\<open>is_dir()\<close>, and its content.
\<close>

datatype zfile = Blob string | Archive "zentry list"
  and zentry = ZEntry (filename: string) (is_dir: bool) (payload: zfile)

datatype node = File zfile | Folder

datatype error =
    ValueError string
  | KeyError string
  | FileNotFoundError string
  | IsADirectoryError string
  | BadZipFile string
  | CalledProcessError int "string list"
  | OSError "string list"

datatype event =
    MkDTemp string
  | OpenZip string
  | Extract string string
  | Run "string list"
  | RmTree string
  | Progress string nat nat string "string set"

record world =
  files :: "string \<rightharpoonup> node"
  tmpname :: string
  proc :: "(string \<rightharpoonup> node) \<Rightarrow> string list \<Rightarrow> (int \<times> string) option"
  log :: "event list"

text \<open>The arguments of the processes started so far, oldest first.\<close>

fun runs :: "event list \<Rightarrow> string list list" where
  "runs [] = []"
| "runs (Run args # evs) = args # runs evs"
| "runs (ev # evs) = runs evs"

subsection \<open>The library calls the script makes\<close>

definition startswith :: "string \<Rightarrow> string \<Rightarrow> bool" where
  "startswith s p = prefix p s"

definition endswith :: "string \<Rightarrow> string \<Rightarrow> bool" where
  "endswith s p = suffix p s"

text \<open>\<^verbatim>\<open>str(n)\<close> for a natural number.\<close>

definition digit_char :: "nat \<Rightarrow> char" where
  "digit_char d = ''0123456789'' ! d"

function str_nat :: "nat \<Rightarrow> string" where
  "str_nat n = (if n < 10 then [digit_char n] else str_nat (n div 10) @ [digit_char (n mod 10)])"
  by pat_completeness auto
termination
  by (relation "measure id") auto

text \<open>\<^verbatim>\<open>sep.join(xs)\<close>.\<close>

fun join :: "string \<Rightarrow> string list \<Rightarrow> string" where
  "join sep [] = []"
| "join sep [x] = x"
| "join sep (x # y # ys) = x @ sep @ join sep (y # ys)"

text \<open>\<^verbatim>\<open>str(xs)\<close> for a list of digit strings, each printed in single quotes.\<close>

definition str_list :: "string list \<Rightarrow> string" where
  "str_list xs = ''['' @ join '', '' (map (\<lambda>x. [CHR 0x27] @ x @ [CHR 0x27]) xs) @ '']''"

text \<open>\<^verbatim>\<open>s.split()\<close>: the maximal runs of characters that are not whitespace.\<close>

definition is_space :: "char \<Rightarrow> bool" where
  "is_space c = (c \<in> set [CHR 0x09, CHR 0x0A, CHR 0x0B, CHR 0x0C, CHR 0x0D, CHR 0x1C,
     CHR 0x1D, CHR 0x1E, CHR 0x1F, CHR 0x20, CHR 0x85, CHR 0xA0])"

fun split_from :: "string \<Rightarrow> string \<Rightarrow> string list" where
  "split_from cur [] = (if cur = [] then [] else [cur])"
| "split_from cur (c # cs) =
     (if is_space c then (if cur = [] then split_from [] cs else cur # split_from [] cs)
      else split_from (cur @ [c]) cs)"

definition split :: "string \<Rightarrow> string list" where
  "split s = split_from [] s"

text \<open>
  \<^verbatim>\<open>re.compile(r'major version: (\d+)').findall(s)\<close>: the digit groups of the
  non-overlapping matches, found from left to right; the search goes on where a match
  ended, or one character further where none starts.
\<close>

definition is_digit :: "char \<Rightarrow> bool" where
  "is_digit c = (c \<in> set ''0123456789'')"

definition match_at :: "string \<Rightarrow> (string \<times> string) option" where
  "match_at s =
     (if prefix ''major version: '' s
      then (let t = drop 15 s; d = takeWhile is_digit t
            in if d = [] then None else Some (d, dropWhile is_digit t))
      else None)"

function findall :: "string \<Rightarrow> string list" where
  "findall [] = []"
| "findall (c # cs) =
     (case match_at (c # cs) of
        None \<Rightarrow> findall cs
      | Some (d, rest) \<Rightarrow> d # findall rest)"
  by pat_completeness auto
termination
proof (relation "measure length")
  show "wf (measure length)" by simp
next
  fix c :: char and cs :: string
  show "(cs, c # cs) \<in> measure length" by simp
next
  fix c :: char and cs x2 d rest
  assume "match_at (c # cs) = Some x2" and "(d, rest) = x2"
  then have "rest = dropWhile is_digit (drop 15 (c # cs))"
    by (auto simp: match_at_def Let_def split: if_splits)
  moreover have "length (dropWhile is_digit (drop 15 (c # cs))) \<le> length (drop 15 (c # cs))"
    by (rule length_dropWhile_le)
  ultimately show "(rest, c # cs) \<in> measure length" by simp
qed

text \<open>\<^verbatim>\<open>tempfile.mkdtemp()\<close> creates a directory and returns its path.\<close>

definition mkdtemp :: "world \<Rightarrow> string \<times> world" where
  "mkdtemp w =
     (tmpname w,
      w\<lparr>files := (files w)(tmpname w \<mapsto> Folder), log := log w @ [MkDTemp (tmpname w)]\<rparr>)"

text \<open>\<^verbatim>\<open>shutil.rmtree(d)\<close> removes the directory and everything below it.\<close>

definition rmtree :: "world \<Rightarrow> string \<Rightarrow> world" where
  "rmtree w d =
     w\<lparr>files := (\<lambda>p. if p = d \<or> prefix (d @ ''/'') p then None else files w p),
       log := log w @ [RmTree d]\<rparr>"

text \<open>\<^verbatim>\<open>zipfile.ZipFile(path, 'r')\<close> gives the entries of a well-formed archive.\<close>

definition zip_open :: "world \<Rightarrow> string \<Rightarrow> (error + zentry list) \<times> world" where
  "zip_open w path =
     (let w1 = w\<lparr>log := log w @ [OpenZip path]\<rparr>
      in case files w path of
           None \<Rightarrow> (Inl (FileNotFoundError path), w1)
         | Some Folder \<Rightarrow> (Inl (IsADirectoryError path), w1)
         | Some (File (Blob b)) \<Rightarrow> (Inl (BadZipFile path), w1)
         | Some (File (Archive es)) \<Rightarrow> (Inr es, w1))"

text \<open>\<^verbatim>\<open>ZipFile.getinfo(name)\<close>: the last entry stored under the name.\<close>

definition getinfo :: "zentry list \<Rightarrow> string \<Rightarrow> error + zentry" where
  "getinfo es name =
     (case filter (\<lambda>e. filename e = name) es of
        [] \<Rightarrow> Inl (KeyError name)
      | x # xs \<Rightarrow> Inr (last (x # xs)))"

text \<open>
  \<^verbatim>\<open>ZipFile.extract(member, path)\<close> for a member name without directory part: the
  entry is written below the directory and its path is returned.
\<close>

definition zip_extract :: "world \<Rightarrow> zentry list \<Rightarrow> string \<Rightarrow> string \<Rightarrow> (error + string) \<times> world" where
  "zip_extract w es member dir =
     (case getinfo es member of
        Inl e \<Rightarrow> (Inl e, w)
      | Inr ent \<Rightarrow>
          (let target = dir @ ''/'' @ member
           in (Inr target,
               w\<lparr>files := (files w)(target \<mapsto> (if is_dir ent then Folder else File (payload ent))),
                 log := log w @ [Extract member target]\<rparr>)))"

text \<open>
  \<^verbatim>\<open>subprocess.run(args, stdout=PIPE, text=True, check=True)\<close>: the standard output
  of the process, or an error when it cannot be started or exits with a code other
  than 0.
\<close>

definition subprocess_run :: "world \<Rightarrow> string list \<Rightarrow> (error + string) \<times> world" where
  "subprocess_run w args =
     (let w1 = w\<lparr>log := log w @ [Run args]\<rparr>
      in case proc w (files w) args of
           None \<Rightarrow> (Inl (OSError args), w1)
         | Some (returncode, out) \<Rightarrow>
             (if returncode \<noteq> 0 then (Inl (CalledProcessError returncode args), w1)
              else (Inr out, w1)))"

subsection \<open>The script\<close>

definition ignore_entries_prefix :: "string list" where
  "ignore_entries_prefix = [''dagger/spi/internal/shaded/'', ''dagger/grpc/shaded/'']"

primrec ignore_loop :: "string \<Rightarrow> string list \<Rightarrow> bool" where
  "ignore_loop fname [] = False"
| "ignore_loop fname (p # ps) = (if startswith fname p then True else ignore_loop fname ps)"

definition ignore_entry :: "string \<Rightarrow> bool" where
  "ignore_entry fname = ignore_loop fname ignore_entries_prefix"

text \<open>The condition under which the loop hands an entry to the disassembler.\<close>

definition processed :: "zentry \<Rightarrow> bool" where
  "processed info =
     (\<not> is_dir info \<and> endswith (filename info) ''.class'' \<and> \<not> ignore_entry (filename info))"

text \<open>The command line of the disassembler, split at whitespace.\<close>

definition javap_args :: "string \<Rightarrow> string \<Rightarrow> string list" where
  "javap_args jar_file fname =
     split (''javap -cp '' @ jar_file @ '' -v '' @ take (length fname - 6) fname)"

definition match_msg :: "string list \<Rightarrow> string" where
  "match_msg matches = ''Expected exactly one match but found: '' @ str_list matches"

definition entry_line :: "string \<Rightarrow> string \<Rightarrow> string" where
  "entry_line fname class_language_level = fname @ '': '' @ class_language_level"

text \<open>
  The loop of \<^verbatim>\<open>_invalid_language_level\<close> over the entries that are left, with the
  index of the next entry, the invalid entries and the set of versions found so far.
\<close>

fun scan_entries ::
  "world \<Rightarrow> string \<Rightarrow> string \<Rightarrow> nat \<Rightarrow> nat \<Rightarrow> string list \<Rightarrow> string set \<Rightarrow> zentry list
     \<Rightarrow> (error + string list) \<times> world" where
  "scan_entries w jar_file expected num_files i invalid_entries unique [] =
     (Inr invalid_entries, w)"
| "scan_entries w jar_file expected num_files i invalid_entries unique (info # infos) =
     (let w1 = w\<lparr>log := log w @ [Progress jar_file (i + 1) num_files expected unique]\<rparr>
      in if processed info
         then (case subprocess_run w1 (javap_args jar_file (filename info)) of
                 (Inl e, w2) \<Rightarrow> (Inl e, w2)
               | (Inr out, w2) \<Rightarrow>
                   (let matches = findall out
                    in if length matches \<noteq> 1 then (Inl (ValueError (match_msg matches)), w2)
                       else (let class_language_level = matches ! 0
                             in scan_entries w2 jar_file expected num_files (i + 1)
                                  (if class_language_level \<noteq> expected
                                   then invalid_entries
                                          @ [entry_line (filename info) class_language_level]
                                   else invalid_entries)
                                  (insert class_language_level unique) infos)))
         else scan_entries w1 jar_file expected num_files (i + 1) invalid_entries unique infos)"

definition invalid_language_level ::
  "world \<Rightarrow> string \<Rightarrow> string \<Rightarrow> (error + string list) \<times> world" where
  "invalid_language_level w jar_file expected =
     (case zip_open w jar_file of
        (Inl e, w1) \<Rightarrow> (Inl e, w1)
      | (Inr infolist, w1) \<Rightarrow>
          scan_entries w1 jar_file expected (length infolist) 0 [] {} infolist)"

definition count_msg :: "nat \<Rightarrow> string" where
  "count_msg n = ''Expected only two arguments but got '' @ str_nat n"

definition unpack_msg :: "nat \<Rightarrow> string" where
  "unpack_msg n = ''not enough values to unpack (expected 2, got '' @ str_nat n @ '')''"

definition invalid_jar_msg :: "string \<Rightarrow> string" where
  "invalid_jar_msg jar_file = ''Invalid jar file: '' @ jar_file"

definition invalid_entries_msg :: "string \<Rightarrow> string \<Rightarrow> string list \<Rightarrow> string" where
  "invalid_entries_msg jar_file java_language_level invalid_entries =
     ''Found invalid entries in '' @ jar_file
       @ '' that do not match the expected java language level ('' @ java_language_level
       @ [CHR '')'', CHR '':'', CHR 0x0A] @ ''    ''
       @ join ([CHR 0x0A] @ ''    '') invalid_entries"

text \<open>The body of the \<^verbatim>\<open>with\<close> statement of the aar branch: open, extract, scan.\<close>

definition extract_and_scan ::
  "world \<Rightarrow> string \<Rightarrow> string \<Rightarrow> string \<Rightarrow> (error + string list) \<times> world" where
  "extract_and_scan w jar_file dirpath java_language_level =
     (case zip_open w jar_file of
        (Inl e, w1) \<Rightarrow> (Inl e, w1)
      | (Inr zip_file, w1) \<Rightarrow>
          (case zip_extract w1 zip_file ''classes.jar'' dirpath of
             (Inl e, w2) \<Rightarrow> (Inl e, w2)
           | (Inr class_file, w2) \<Rightarrow> invalid_language_level w2 class_file java_language_level))"

definition main :: "world \<Rightarrow> string list \<Rightarrow> (error + unit) \<times> world" where
  "main w argv =
     (if length argv > 3 then (Inl (ValueError (count_msg (length argv))), w)
      else
        (case drop (length argv - 2) argv of
           [jar_file, java_language_level] \<Rightarrow>
             (case (if endswith jar_file ''.jar''
                    then invalid_language_level w jar_file java_language_level
                    else if endswith jar_file ''.aar''
                    then (case mkdtemp w of
                            (dirpath, w1) \<Rightarrow>
                              (case extract_and_scan w1 jar_file dirpath java_language_level of
                                 (Inl e, w2) \<Rightarrow> (Inl e, w2)
                               | (Inr invalid_entries, w2) \<Rightarrow>
                                   (Inr invalid_entries, rmtree w2 dirpath)))
                    else (Inl (ValueError (invalid_jar_msg jar_file)), w)) of
                (Inl e, w') \<Rightarrow> (Inl e, w')
              | (Inr invalid_entries, w') \<Rightarrow>
                  (if invalid_entries \<noteq> []
                   then (Inl (ValueError
                           (invalid_entries_msg jar_file java_language_level invalid_entries)), w')
                   else (Inr (), w')))
         | rest \<Rightarrow> (Inl (ValueError (unpack_msg (length rest))), w)))"

subsection \<open>What the loop sees of an entry\<close>

text \<open>
  The claims speak of the version extracted for an entry, of the error an entry ends
  the run with, and of the entries the loop gets to. These functions read them off the
  world the way the loop body does; they are used in the statements only.
\<close>

definition extracted :: "world \<Rightarrow> string \<Rightarrow> zentry \<Rightarrow> string option" where
  "extracted w jar_file info =
     (case proc w (files w) (javap_args jar_file (filename info)) of
        None \<Rightarrow> None
      | Some (returncode, out) \<Rightarrow>
          (if returncode = 0 then (case findall out of [v] \<Rightarrow> Some v | _ \<Rightarrow> None) else None))"

definition entry_error :: "world \<Rightarrow> string \<Rightarrow> zentry \<Rightarrow> error" where
  "entry_error w jar_file info =
     (let args = javap_args jar_file (filename info)
      in case proc w (files w) args of
           None \<Rightarrow> OSError args
         | Some (returncode, out) \<Rightarrow>
             (if returncode \<noteq> 0 then CalledProcessError returncode args
              else ValueError (match_msg (findall out))))"

definition mismatched :: "world \<Rightarrow> string \<Rightarrow> string \<Rightarrow> zentry \<Rightarrow> bool" where
  "mismatched w jar_file expected info =
     (processed info \<and> extracted w jar_file info \<noteq> Some expected)"

definition invalid_line :: "world \<Rightarrow> string \<Rightarrow> zentry \<Rightarrow> string" where
  "invalid_line w jar_file info =
     entry_line (filename info) (case extracted w jar_file info of None \<Rightarrow> [] | Some v \<Rightarrow> v)"

fun reached :: "world \<Rightarrow> string \<Rightarrow> zentry list \<Rightarrow> zentry list" where
  "reached w jar_file [] = []"
| "reached w jar_file (info # infos) =
     (if processed info \<and> extracted w jar_file info = None then [info]
      else info # reached w jar_file infos)"





definition extracted_jar :: "world \<Rightarrow> string" where
  "extracted_jar w = tmpname w @ ''/classes.jar''"


subsection \<open>A small world to run the script in\<close>

text \<open>
  Four archives and a disassembler that answers by class name: \<^verbatim>\<open>com/x/Y\<close> is at
  version 52, \<^verbatim>\<open>com/x/Z\<close> at 55, and the output for \<^verbatim>\<open>com/x/Two\<close> holds the
  pattern twice, as it does for a class with the text in its constant pool.
\<close>

definition example_javap :: "(string \<rightharpoonup> node) \<Rightarrow> string list \<Rightarrow> (int \<times> string) option" where
  "example_javap fs args =
     (case args of
        [tool, cp, jar, v, cls] \<Rightarrow>
          (if cls = ''com/x/Y'' then Some (0, ''  major version: 52'')
           else if cls = ''com/x/Z'' then Some (0, ''  major version: 55'')
           else if cls = ''com/x/Two'' then Some (0, ''major version: 52 major version: 52'')
           else if cls = ''com/x/Bad'' then Some (1, [])
           else Some (0, ''minor version: 0''))
      | _ \<Rightarrow> None)"

definition class_Y :: zentry where
  "class_Y = ZEntry ''com/x/Y.class'' False (Blob ''Y'')"

definition class_Z :: zentry where
  "class_Z = ZEntry ''com/x/Z.class'' False (Blob ''Z'')"

definition class_Two :: zentry where
  "class_Two = ZEntry ''com/x/Two.class'' False (Blob ''T'')"

definition shaded_S :: zentry where
  "shaded_S = ZEntry ''dagger/grpc/shaded/S.class'' False (Blob ''S'')"

definition folder_x :: zentry where
  "folder_x = ZEntry ''com/x/'' True (Blob [])"

definition manifest :: zentry where
  "manifest = ZEntry ''META-INF/MANIFEST.MF'' False (Blob ''M'')"

definition nested_jar :: zentry where
  "nested_jar = ZEntry ''classes.jar'' False (Archive [class_Y, class_Z])"

definition example_files :: "string \<rightharpoonup> node" where
  "example_files =
     [''ok.jar'' \<mapsto> File (Archive [folder_x, class_Y, shaded_S, manifest]),
      ''lib.jar'' \<mapsto> File (Archive [class_Y, class_Z]),
      ''two.jar'' \<mapsto> File (Archive [class_Z, class_Two, class_Y]),
      ''lib.aar'' \<mapsto> File (Archive [manifest, nested_jar]),
      ''res.aar'' \<mapsto> File (Archive [manifest])]"

definition example_world :: world where
  "example_world = \<lparr>files = example_files, tmpname = ''/tmp/t0'', proc = example_javap, log = []\<rparr>"

definition extracted_world :: world where
  "extracted_world =
     example_world
       \<lparr>files := example_files(''/tmp/t0'' \<mapsto> Folder,
                  ''/tmp/t0/classes.jar'' \<mapsto> File (Archive [class_Y, class_Z])),
        log := [MkDTemp ''/tmp/t0'', OpenZip ''lib.aar'',
                Extract ''classes.jar'' ''/tmp/t0/classes.jar'']\<rparr>"



section \<open>Properties of the loop\<close>

lemma runs_append: "runs (xs @ ys) = runs xs @ runs ys"
  by (induction xs rule: runs.induct) auto

lemma extracted_log: "extracted (w\<lparr>log := l\<rparr>) jar_file info = extracted w jar_file info"
  by (simp add: extracted_def)

lemma reached_log: "reached (w\<lparr>log := l\<rparr>) jar_file infos = reached w jar_file infos"
  by (induction infos) (auto simp: extracted_log)

lemma entry_error_log: "entry_error (w\<lparr>log := l\<rparr>) jar_file info = entry_error w jar_file info"
  by (simp add: entry_error_def)

lemma mismatched_log:
  "mismatched (w\<lparr>log := l\<rparr>) jar_file expected = mismatched w jar_file expected"
  by (rule ext) (simp add: mismatched_def extracted_log)

lemma invalid_line_log: "invalid_line (w\<lparr>log := l\<rparr>) jar_file = invalid_line w jar_file"
  by (rule ext) (simp add: invalid_line_def extracted_log)

text \<open>One round of the loop, for each of the three ways it can go.\<close>

lemma scan_skip:
  "\<not> processed info \<Longrightarrow>
   scan_entries w j x n i acc u (info # infos) =
     scan_entries (w\<lparr>log := log w @ [Progress j (i + 1) n x u]\<rparr>) j x n (i + 1) acc u infos"
  by simp

lemma scan_some:
  assumes "processed info" and "extracted w j info = Some v"
  shows "scan_entries w j x n i acc u (info # infos) =
     scan_entries
       (w\<lparr>log := log w @ [Progress j (i + 1) n x u, Run (javap_args j (filename info))]\<rparr>)
       j x n (i + 1) (if v \<noteq> x then acc @ [entry_line (filename info) v] else acc)
       (insert v u) infos"
proof -
  from assms(2) obtain out where p: "proc w (files w) (javap_args j (filename info)) = Some (0, out)"
    and f: "findall out = [v]"
    by (auto simp: extracted_def split: option.splits if_splits list.splits)
  show ?thesis using assms(1) p f
    by (simp add: subprocess_run_def)
qed

lemma scan_none:
  assumes "processed info" and "extracted w j info = None"
  shows "scan_entries w j x n i acc u (info # infos) =
     (Inl (entry_error w j info),
      w\<lparr>log := log w @ [Progress j (i + 1) n x u, Run (javap_args j (filename info))]\<rparr>)"
proof (cases "proc w (files w) (javap_args j (filename info))")
  case None
  then show ?thesis using assms(1)
    by (simp add: subprocess_run_def entry_error_def)
next
  case (Some r)
  obtain rc out where r: "r = (rc, out)" by (cases r)
  show ?thesis
  proof (cases "rc = 0")
    case True
    with assms(2) Some r have "length (findall out) \<noteq> 1"
      by (auto simp: extracted_def split: list.splits)
    with True Some r assms(1) show ?thesis
      by (simp add: subprocess_run_def entry_error_def)
  next
    case False
    with Some r assms(1) show ?thesis
      by (simp add: subprocess_run_def entry_error_def)
  qed
qed

lemmas scan_step = scan_skip scan_some scan_none

lemma scan_world:
  "files (snd (scan_entries w j x n i acc u infos)) = files w \<and>
   proc (snd (scan_entries w j x n i acc u infos)) = proc w \<and>
   tmpname (snd (scan_entries w j x n i acc u infos)) = tmpname w"
proof (induction infos arbitrary: w i acc u)
  case Nil
  show ?case by simp
next
  case (Cons info infos)
  show ?case
  proof (cases "processed info")
    case False
    show ?thesis using Cons.IH by (simp only: scan_skip [OF False]) simp
  next
    case True
    show ?thesis
    proof (cases "extracted w j info")
      case None
      then show ?thesis using True by (simp only: scan_none) simp
    next
      case (Some v)
      then show ?thesis using True Cons.IH by (simp only: scan_some) simp
    qed
  qed
qed

lemma scan_ok:
  "\<forall>e\<in>set infos. processed e \<longrightarrow> extracted w j e \<noteq> None \<Longrightarrow>
   fst (scan_entries w j x n i acc u infos) =
     Inr (acc @ map (invalid_line w j) (filter (mismatched w j x) infos))"
proof (induction infos arbitrary: w i acc u)
  case Nil
  show ?case by simp
next
  case (Cons info infos)
  show ?case
  proof (cases "processed info")
    case False
    show ?thesis using False Cons
      by (simp only: scan_skip [OF False])
         (simp add: extracted_log mismatched_log invalid_line_log mismatched_def)
  next
    case True
    with Cons.prems obtain v where v: "extracted w j info = Some v" by auto
    show ?thesis using True v Cons
      by (simp only: scan_some)
         (simp add: extracted_log mismatched_log invalid_line_log mismatched_def invalid_line_def)
  qed
qed

lemma scan_fail:
  "\<forall>e\<in>set es1. processed e \<longrightarrow> extracted w j e \<noteq> None \<Longrightarrow> processed info \<Longrightarrow>
   extracted w j info = None \<Longrightarrow>
   fst (scan_entries w j x n i acc u (es1 @ info # es2)) = Inl (entry_error w j info)"
proof (induction es1 arbitrary: w i acc u)
  case Nil
  then show ?case by (simp only: append_Nil scan_none) simp
next
  case (Cons e es1)
  show ?case
  proof (cases "processed e")
    case False
    show ?thesis using Cons
      by (simp only: append_Cons scan_skip [OF False]) (simp add: extracted_log entry_error_log)
  next
    case True
    with Cons.prems obtain v where v: "extracted w j e = Some v" by auto
    show ?thesis using True v Cons
      by (simp only: append_Cons scan_some) (simp add: extracted_log entry_error_log)
  qed
qed

lemma scan_runs:
  "runs (log (snd (scan_entries w j x n i acc u infos))) =
     runs (log w) @ map (\<lambda>e. javap_args j (filename e)) (filter processed (reached w j infos))"
proof (induction infos arbitrary: w i acc u)
  case Nil
  show ?case by simp
next
  case (Cons info infos)
  show ?case
  proof (cases "processed info")
    case False
    show ?thesis using False Cons.IH
      by (simp only: scan_skip [OF False]) (simp add: reached_log runs_append)
  next
    case True
    show ?thesis
    proof (cases "extracted w j info")
      case None
      then show ?thesis using True by (simp only: scan_none) (simp add: runs_append)
    next
      case (Some v)
      then show ?thesis using True Cons.IH
        by (simp only: scan_some) (simp add: reached_log runs_append)
    qed
  qed
qed

lemma reached_all:
  "\<forall>e\<in>set infos. processed e \<longrightarrow> extracted w j e \<noteq> None \<Longrightarrow> reached w j infos = infos"
  by (induction infos) auto

lemma reached_stop:
  "\<forall>e\<in>set es1. processed e \<longrightarrow> extracted w j e \<noteq> None \<Longrightarrow> processed info \<Longrightarrow>
   extracted w j info = None \<Longrightarrow> reached w j (es1 @ info # es2) = es1 @ [info]"
  by (induction es1) auto

lemma reached_prefix: "prefix (reached w j infos) infos"
  by (induction infos) auto

lemma not_both_suffixes: "endswith s ''.aar'' \<Longrightarrow> \<not> endswith s ''.jar''"
proof
  assume a: "endswith s ''.aar''" and j: "endswith s ''.jar''"
  from a obtain xs where xs: "s = xs @ ''.aar''" by (auto simp: endswith_def suffix_def)
  from j obtain ys where ys: "s = ys @ ''.jar''" by (auto simp: endswith_def suffix_def)
  from xs ys have "xs @ ''.aar'' = ys @ ''.jar''" by simp
  then show False by simp
qed

lemma short_pre: "length pre \<le> 1 \<Longrightarrow> pre = [] \<or> (\<exists>s. pre = [s])"
  by (cases pre) auto

lemma main_jar:
  assumes "length pre \<le> 1" and "endswith a ''.jar''"
  shows "main w (pre @ [a, l]) =
     (case invalid_language_level w a l of
        (Inl e, w') \<Rightarrow> (Inl e, w')
      | (Inr invalid_entries, w') \<Rightarrow>
          (if invalid_entries \<noteq> []
           then (Inl (ValueError (invalid_entries_msg a l invalid_entries)), w')
           else (Inr (), w')))"
  using short_pre [OF assms(1)] assms(2) by (auto simp: main_def)

lemma main_aar:
  assumes "length pre \<le> 1" and "endswith a ''.aar''"
  shows "main w (pre @ [a, l]) =
     (case extract_and_scan (snd (mkdtemp w)) a (tmpname w) l of
        (Inl e, w2) \<Rightarrow> (Inl e, w2)
      | (Inr invalid_entries, w2) \<Rightarrow>
          (if invalid_entries \<noteq> []
           then (Inl (ValueError (invalid_entries_msg a l invalid_entries)),
                 rmtree w2 (tmpname w))
           else (Inr (), rmtree w2 (tmpname w))))"
proof -
  have nj: "\<not> endswith a ''.jar''" using assms(2) by (rule not_both_suffixes)
  let ?w1 = "w\<lparr>files := (files w)(tmpname w \<mapsto> Folder), log := log w @ [MkDTemp (tmpname w)]\<rparr>"
  obtain r w2 where e: "extract_and_scan ?w1 a (tmpname w) l = (r, w2)"
    by (cases "extract_and_scan ?w1 a (tmpname w) l")
  show ?thesis
    using short_pre [OF assms(1)] assms(2) nj
    by (cases r) (auto simp: main_def mkdtemp_def e)
qed

lemma main_other:
  assumes "length pre \<le> 1" and "\<not> endswith a ''.jar''" and "\<not> endswith a ''.aar''"
  shows "main w (pre @ [a, l]) = (Inl (ValueError (invalid_jar_msg a)), w)"
  using short_pre [OF assms(1)] assms(2,3) by (auto simp: main_def)

lemma level_archive:
  "files w jar_file = Some (File (Archive infos)) \<Longrightarrow>
   invalid_language_level w jar_file x =
     scan_entries (w\<lparr>log := log w @ [OpenZip jar_file]\<rparr>) jar_file x (length infos) 0 [] {} infos"
  by (simp add: invalid_language_level_def zip_open_def)

lemma level_world:
  "files (snd (invalid_language_level w jar_file x)) = files w"
  by (auto simp: invalid_language_level_def zip_open_def Let_def scan_world
           split: option.splits node.splits zfile.splits)

lemma level_ok:
  assumes "files w jar_file = Some (File (Archive infos))"
    and "\<forall>e\<in>set infos. processed e \<longrightarrow> extracted w jar_file e \<noteq> None"
  shows "fst (invalid_language_level w jar_file x) =
     Inr (map (invalid_line w jar_file) (filter (mismatched w jar_file x) infos))"
proof -
  let ?w = "w\<lparr>log := log w @ [OpenZip jar_file]\<rparr>"
  have "\<forall>e\<in>set infos. processed e \<longrightarrow> extracted ?w jar_file e \<noteq> None"
    using assms(2) by (simp add: extracted_log)
  from scan_ok [OF this] show ?thesis
    by (simp add: level_archive [OF assms(1)] mismatched_log invalid_line_log)
qed

lemma level_fail:
  assumes "files w jar_file = Some (File (Archive (es1 @ info # es2)))"
    and "\<forall>e\<in>set es1. processed e \<longrightarrow> extracted w jar_file e \<noteq> None"
    and "processed info" and "extracted w jar_file info = None"
  shows "fst (invalid_language_level w jar_file x) = Inl (entry_error w jar_file info)"
proof -
  let ?w = "w\<lparr>log := log w @ [OpenZip jar_file]\<rparr>"
  have "\<forall>e\<in>set es1. processed e \<longrightarrow> extracted ?w jar_file e \<noteq> None"
    using assms(2) by (simp add: extracted_log)
  from scan_fail [OF this assms(3)] assms(4) show ?thesis
    by (simp add: level_archive [OF assms(1)] extracted_log entry_error_log)
qed

lemma level_runs:
  assumes "files w jar_file = Some (File (Archive infos))"
  shows "runs (log (snd (invalid_language_level w jar_file x))) =
     runs (log w) @ map (\<lambda>e. javap_args jar_file (filename e))
                      (filter processed (reached w jar_file infos))"
  by (simp add: level_archive [OF assms] scan_runs runs_append reached_log)

text \<open>First failing entry of an archive that has one.\<close>

lemma first_failure:
  "\<exists>e\<in>set infos. processed e \<and> extracted w j e = None \<Longrightarrow>
   \<exists>es1 info es2. infos = es1 @ info # es2 \<and> processed info \<and> extracted w j info = None \<and>
     (\<forall>e\<in>set es1. processed e \<longrightarrow> extracted w j e \<noteq> None)"
proof (induction infos)
  case Nil
  then show ?case by simp
next
  case (Cons x xs)
  show ?case
  proof (cases "processed x \<and> extracted w j x = None")
    case True
    then have "x # xs = [] @ x # xs \<and> processed x \<and> extracted w j x = None \<and>
      (\<forall>e\<in>set []. processed e \<longrightarrow> extracted w j e \<noteq> None)" by simp
    then show ?thesis by blast
  next
    case False
    with Cons.prems have "\<exists>e\<in>set xs. processed e \<and> extracted w j e = None" by auto
    from Cons.IH [OF this] obtain es1 info es2 where
      h: "xs = es1 @ info # es2" "processed info" "extracted w j info = None"
      "\<forall>e\<in>set es1. processed e \<longrightarrow> extracted w j e \<noteq> None" by blast
    from h False have "x # xs = (x # es1) @ info # es2 \<and> processed info \<and>
      extracted w j info = None \<and>
      (\<forall>e\<in>set (x # es1). processed e \<longrightarrow> extracted w j e \<noteq> None)" by auto
    then show ?thesis by blast
  qed
qed

lemma level_Inr:
  assumes "files w jar_file = Some (File (Archive infos))"
    and "fst (invalid_language_level w jar_file x) = Inr lines"
  shows "lines = map (invalid_line w jar_file) (filter (mismatched w jar_file x) infos)"
proof (cases "\<forall>e\<in>set infos. processed e \<longrightarrow> extracted w jar_file e \<noteq> None")
  case True
  from level_ok [OF assms(1) True] assms(2) show ?thesis by simp
next
  case False
  then have "\<exists>e\<in>set infos. processed e \<and> extracted w jar_file e = None" by auto
  from first_failure [OF this] obtain es1 info es2 where
    h: "infos = es1 @ info # es2" "processed info" "extracted w jar_file info = None"
    "\<forall>e\<in>set es1. processed e \<longrightarrow> extracted w jar_file e \<noteq> None" by blast
  from assms(1) h(1) have "files w jar_file = Some (File (Archive (es1 @ info # es2)))" by simp
  from level_fail [OF this h(4) h(2) h(3), of x] assms(2) show ?thesis by simp
qed







lemma findall_digits: "d \<in> set (findall s) \<Longrightarrow> d \<noteq> [] \<and> (\<forall>c\<in>set d. is_digit c)"
proof (induction s arbitrary: d rule: findall.induct)
  case 1
  then show ?case by simp
next
  case (2 c cs)
  show ?case
  proof (cases "match_at (c # cs)")
    case None
    with 2 show ?thesis by simp
  next
    case (Some r)
    obtain d' rest where r: "r = (d', rest)" by (cases r)
    from Some r have d': "d' \<noteq> [] \<and> (\<forall>c\<in>set d'. is_digit c)"
      by (auto simp: match_at_def Let_def split: if_splits dest: set_takeWhileD)
    from 2(3) Some r have "d = d' \<or> d \<in> set (findall rest)" by simp
    with d' 2(2) [OF Some r [symmetric]] show ?thesis by blast
  qed
qed

lemma extracted_digits:
  "extracted w j e = Some v \<Longrightarrow> v \<noteq> [] \<and> (\<forall>c\<in>set v. is_digit c)"
proof -
  assume "extracted w j e = Some v"
  then obtain out where "findall out = [v]"
    by (auto simp: extracted_def split: option.splits if_splits list.splits)
  then have "v \<in> set (findall out)" by simp
  then show ?thesis by (rule findall_digits)
qed

lemma entry_line_inject:
  assumes "entry_line f v = entry_line f' v'"
    and "\<forall>c\<in>set v. is_digit c" and "\<forall>c\<in>set v'. is_digit c"
  shows "v = v'"
proof -
  have nd: "\<not> is_digit (CHR '' '')" by (simp add: is_digit_def)
  have tw: "takeWhile is_digit (rev u @ '' :'' @ rev g) = rev u" if "\<forall>c\<in>set u. is_digit c" for u g
  proof -
    have "takeWhile is_digit (rev u @ ('' :'' @ rev g)) = rev u @ takeWhile is_digit ('' :'' @ rev g)"
      by (rule takeWhile_append2) (use that in simp)
    then show ?thesis using nd by simp
  qed
  from assms(1) have "rev (entry_line f v) = rev (entry_line f' v')" by simp
  then have "rev v @ '' :'' @ rev f = rev v' @ '' :'' @ rev f'"
    by (simp add: entry_line_def)
  then have "takeWhile is_digit (rev v @ '' :'' @ rev f) = takeWhile is_digit (rev v' @ '' :'' @ rev f')"
    by simp
  with tw [OF assms(2)] tw [OF assms(3)] show ?thesis by simp
qed


lemma extract_and_scan_files:
  "files (snd (extract_and_scan w a d l)) d = files w d"
  by (auto simp: extract_and_scan_def zip_open_def zip_extract_def Let_def level_world
           split: option.splits node.splits zfile.splits sum.splits)








lemma processed_iff:
  "processed e \<longleftrightarrow>
     \<not> (is_dir e \<or> \<not> endswith (filename e) ''.class''
        \<or> startswith (filename e) ''dagger/spi/internal/shaded/''
        \<or> startswith (filename e) ''dagger/grpc/shaded/'')"
  by (auto simp: processed_def ignore_entry_def ignore_entries_prefix_def)

subsection \<open>Evaluating the example\<close>

lemmas example_defs =
  example_world_def example_files_def example_javap_def extracted_world_def
  class_Y_def class_Z_def class_Two_def shaded_S_def folder_x_def manifest_def nested_jar_def

lemmas eval_defs =
  processed_def endswith_def startswith_def suffix_to_prefix ignore_entry_def
  ignore_entries_prefix_def javap_args_def split_def is_space_def extracted_def
  match_at_def is_digit_def Let_def

lemmas run_defs =
  main_def invalid_language_level_def zip_open_def subprocess_run_def entry_line_def
  extract_and_scan_def zip_extract_def getinfo_def mkdtemp_def rmtree_def Let_def

lemma example_processed:
  "processed class_Y" "processed class_Z" "processed class_Two"
  "\<not> processed shaded_S" "\<not> processed folder_x" "\<not> processed manifest"
  by (simp_all add: example_defs eval_defs)

lemma example_ok_jar:
  "files example_world ''ok.jar'' = Some (File (Archive [folder_x, class_Y, shaded_S, manifest]))"
  "extracted example_world ''ok.jar'' class_Y = Some ''52''"
  by (simp_all add: example_defs eval_defs)

lemma example_lib_jar:
  "files example_world ''lib.jar'' = Some (File (Archive [class_Y, class_Z]))"
  "extracted example_world ''lib.jar'' class_Y = Some ''52''"
  "extracted example_world ''lib.jar'' class_Z = Some ''55''"
  by (simp_all add: example_defs eval_defs)

lemma example_two_jar:
  "files example_world ''two.jar'' = Some (File (Archive [class_Z, class_Two, class_Y]))"
  "extracted example_world ''two.jar'' class_Z = Some ''55''"
  "proc example_world (files example_world) (javap_args ''two.jar'' (filename class_Two)) =
     Some (0, ''major version: 52 major version: 52'')"
  "findall ''major version: 52 major version: 52'' = [''52'', ''52'']"
  by (simp_all add: example_defs eval_defs)

lemma example_lib_aar:
  "files example_world ''lib.aar'' = Some (File (Archive [manifest, nested_jar]))"
  "files example_world (tmpname example_world) = None"
  "tmpname example_world = ''/tmp/t0''"
  "extracted_jar example_world = ''/tmp/t0/classes.jar''"
  by (simp_all add: example_defs extracted_jar_def)


lemma example_res_aar:
  "fst (extract_and_scan (snd (mkdtemp example_world)) ''res.aar'' (tmpname example_world) ''52'')
     = Inl (KeyError ''classes.jar'')"
  "fst (extract_and_scan (snd (mkdtemp example_world)) ''lib.aar'' (tmpname example_world) ''52'')
     = Inr [''com/x/Z.class: 55'']"
  by (simp_all add: run_defs example_defs eval_defs)



section \<open>The claims\<close>

text \<open>
  Claim C1, as the code has it. A jar whose processed entries all yield exactly one
  version, at least one of them different from the expected level, makes the run raise
  the validation error: its message names the archive path and the expected level and
  then lists, in stored order and joined by a newline and four spaces, one
  "entry: version" line for each mismatched entry and for no other. Without the
  condition on the other entries the claim fails: the counterexample below has a
  mismatched entry and ends in the parse error of a later entry.
\<close>

theorem validation_error_lists_mismatches:
  assumes "length pre \<le> 1" and "endswith jar_file ''.jar''"
    and "files w jar_file = Some (File (Archive infos))"
    and "\<forall>e\<in>set infos. processed e \<longrightarrow> extracted w jar_file e \<noteq> None"
    and "\<exists>e\<in>set infos. processed e \<and> extracted w jar_file e \<noteq> Some lvl"
  shows "fst (main w (pre @ [jar_file, lvl])) =
     Inl (ValueError
       (''Found invalid entries in '' @ jar_file
          @ '' that do not match the expected java language level ('' @ lvl @ ''):''
          @ [CHR 0x0A] @ ''    ''
          @ join ([CHR 0x0A] @ ''    '')
              (map (\<lambda>e. filename e @ '': '' @ the (extracted w jar_file e))
                 (filter (\<lambda>e. processed e \<and> extracted w jar_file e \<noteq> Some lvl) infos))))"
proof -
  let ?bad = "filter (mismatched w jar_file lvl) infos"
  have m: "mismatched w jar_file lvl = (\<lambda>e. processed e \<and> extracted w jar_file e \<noteq> Some lvl)"
    by (rule ext) (simp add: mismatched_def)
  have l: "map (invalid_line w jar_file) ?bad =
     map (\<lambda>e. filename e @ '': '' @ the (extracted w jar_file e)) ?bad"
    using assms(4)
    by (auto simp: invalid_line_def entry_line_def mismatched_def split: option.splits)
  have msg: "invalid_entries_msg jar_file lvl (map (invalid_line w jar_file) ?bad) =
       ''Found invalid entries in '' @ jar_file
          @ '' that do not match the expected java language level ('' @ lvl @ ''):''
          @ [CHR 0x0A] @ ''    ''
          @ join ([CHR 0x0A] @ ''    '')
              (map (\<lambda>e. filename e @ '': '' @ the (extracted w jar_file e)) ?bad)"
    by (simp only: l) (simp add: invalid_entries_msg_def)
  from assms(5) have ne: "?bad \<noteq> []"
    by (simp add: filter_empty_conv mismatched_def)
  obtain r w' where r: "invalid_language_level w jar_file lvl = (r, w')"
    by (cases "invalid_language_level w jar_file lvl")
  with level_ok [OF assms(3,4), of lvl] have "r = Inr (map (invalid_line w jar_file) ?bad)"
    by simp
  with r ne have "fst (main w (pre @ [jar_file, lvl])) =
      Inl (ValueError (invalid_entries_msg jar_file lvl (map (invalid_line w jar_file) ?bad)))"
    by (simp add: main_jar [OF assms(1,2)])
  then show ?thesis unfolding msg unfolding m .
qed

theorem validation_error_lists_mismatches_witness:
  "fst (main example_world [''validate.py'', ''lib.jar'', ''52'']) =
     Inl (ValueError
       ''Found invalid entries in lib.jar that do not match the expected java language level (52):\<newline>    com/x/Z.class: 55'')"
  using validation_error_lists_mismatches
    [of "[''validate.py'']" "''lib.jar''" example_world "[class_Y, class_Z]" "''52''"]
  by (simp add: example_lib_jar example_processed)
     (simp add: endswith_def suffix_to_prefix class_Z_def)

theorem validation_error_counterexample:
  "processed class_Z \<and> class_Z \<in> set [class_Z, class_Two, class_Y] \<and>
   files example_world ''two.jar'' = Some (File (Archive [class_Z, class_Two, class_Y])) \<and>
   extracted example_world ''two.jar'' class_Z = Some ''55'' \<and> ''55'' \<noteq> ''52'' \<and>
   fst (main example_world [''validate.py'', ''two.jar'', ''52'']) =
     Inl (ValueError (''Expected exactly one match but found: '' @ str_list [''52'', ''52''])) \<and>
   fst (main example_world [''validate.py'', ''two.jar'', ''52'']) \<noteq>
     Inl (ValueError (invalid_entries_msg ''two.jar'' ''52'' [''com/x/Z.class: 55'']))"
proof -
  have "fst (main example_world [''validate.py'', ''two.jar'', ''52'']) =
     Inl (ValueError (''Expected exactly one match but found: '' @ str_list [''52'', ''52'']))"
    by (simp add: run_defs example_defs eval_defs match_msg_def)
  then show ?thesis
    by (simp add: example_two_jar example_processed invalid_entries_msg_def)
qed

text \<open>
  Claim C2. When the disassembler yields exactly one version for every entry of a jar
  that is neither a directory nor ignored, and that version is the expected level, the
  run returns without an error.
\<close>

theorem matching_jar_passes:
  assumes "length pre \<le> 1" and "endswith jar_file ''.jar''"
    and "files w jar_file = Some (File (Archive infos))"
    and "\<forall>e\<in>set infos. processed e \<longrightarrow> extracted w jar_file e = Some lvl"
  shows "fst (main w (pre @ [jar_file, lvl])) = Inr ()"
proof -
  from assms(4) have ok: "\<forall>e\<in>set infos. processed e \<longrightarrow> extracted w jar_file e \<noteq> None"
    by auto
  from assms(4) have "filter (mismatched w jar_file lvl) infos = []"
    by (simp add: filter_empty_conv mismatched_def)
  with level_ok [OF assms(3) ok, of lvl]
  have "fst (invalid_language_level w jar_file lvl) = Inr []" by simp
  then show ?thesis
    by (cases "invalid_language_level w jar_file lvl") (simp add: main_jar [OF assms(1,2)])
qed

theorem matching_jar_passes_witness:
  "fst (main example_world [''validate.py'', ''ok.jar'', ''52'']) = Inr ()"
  using matching_jar_passes
    [of "[''validate.py'']" "''ok.jar''" example_world "[folder_x, class_Y, shaded_S, manifest]" "''52''"]
  by (simp add: example_ok_jar example_processed) (simp add: endswith_def suffix_to_prefix)

text \<open>
  Claim C3. The disassembler is started once for each entry the loop gets to that is
  not a directory, ends in \<^verbatim>\<open>.class\<close> and starts with neither ignored prefix, in
  stored order, and for nothing else; the invalid entries come from such entries only.
  An entry that is a directory, has another suffix or lies under an ignored prefix is
  therefore never disassembled and never reported, whatever it contains.
\<close>

theorem ignored_entries_untouched:
  assumes "files w jar_file = Some (File (Archive infos))"
  shows "runs (log (snd (invalid_language_level w jar_file lvl))) =
       runs (log w) @
       map (\<lambda>e. javap_args jar_file (filename e))
         (filter (\<lambda>e. \<not> (is_dir e \<or> \<not> endswith (filename e) ''.class''
                        \<or> startswith (filename e) ''dagger/spi/internal/shaded/''
                        \<or> startswith (filename e) ''dagger/grpc/shaded/''))
            (reached w jar_file infos)) \<and>
     prefix (reached w jar_file infos) infos \<and>
     (\<forall>lines. fst (invalid_language_level w jar_file lvl) = Inr lines \<longrightarrow>
        lines =
          map (invalid_line w jar_file)
            (filter (\<lambda>e. \<not> (is_dir e \<or> \<not> endswith (filename e) ''.class''
                           \<or> startswith (filename e) ''dagger/spi/internal/shaded/''
                           \<or> startswith (filename e) ''dagger/grpc/shaded/'')
                         \<and> extracted w jar_file e \<noteq> Some lvl) infos))"
proof -
  have p: "processed = (\<lambda>e. \<not> (is_dir e \<or> \<not> endswith (filename e) ''.class''
                        \<or> startswith (filename e) ''dagger/spi/internal/shaded/''
                        \<or> startswith (filename e) ''dagger/grpc/shaded/''))"
    by (rule ext) (rule processed_iff)
  have m: "mismatched w jar_file lvl =
      (\<lambda>e. \<not> (is_dir e \<or> \<not> endswith (filename e) ''.class''
                        \<or> startswith (filename e) ''dagger/spi/internal/shaded/''
                        \<or> startswith (filename e) ''dagger/grpc/shaded/'')
            \<and> extracted w jar_file e \<noteq> Some lvl)"
    by (rule ext) (simp only: mismatched_def processed_iff)
  have 1: "runs (log (snd (invalid_language_level w jar_file lvl))) =
       runs (log w) @ map (\<lambda>e. javap_args jar_file (filename e))
         (filter processed (reached w jar_file infos))"
    by (rule level_runs [OF assms])
  have 3: "\<forall>lines. fst (invalid_language_level w jar_file lvl) = Inr lines \<longrightarrow>
        lines = map (invalid_line w jar_file) (filter (mismatched w jar_file lvl) infos)"
    using level_Inr [OF assms] by blast
  from 1 3 reached_prefix [of w jar_file infos] show ?thesis
    unfolding m unfolding p by blast
qed

theorem ignored_entries_untouched_witness:
  "runs (log (snd (invalid_language_level example_world ''ok.jar'' ''55''))) =
     [''javap'', ''-cp'', ''ok.jar'', ''-v'', ''com/x/Y''] # [] \<and>
   fst (invalid_language_level example_world ''ok.jar'' ''55'') = Inr [''com/x/Y.class: 52'']"
proof -
  have r: "fst (invalid_language_level example_world ''ok.jar'' ''55'') = Inr [''com/x/Y.class: 52'']"
    by (simp add: run_defs example_defs eval_defs)
  have p: "processed = (\<lambda>e. \<not> (is_dir e \<or> \<not> endswith (filename e) ''.class''
                        \<or> startswith (filename e) ''dagger/spi/internal/shaded/''
                        \<or> startswith (filename e) ''dagger/grpc/shaded/''))"
    by (rule ext) (rule processed_iff)
  have l: "log example_world = []" by (simp add: example_world_def)
  have a: "javap_args ''ok.jar'' (filename class_Y) = [''javap'', ''-cp'', ''ok.jar'', ''-v'', ''com/x/Y'']"
    by (simp add: class_Y_def javap_args_def split_def is_space_def)
  from ignored_entries_untouched [OF example_ok_jar(1), of "''55''", folded p]
  have "runs (log (snd (invalid_language_level example_world ''ok.jar'' ''55''))) =
     [''javap'', ''-cp'', ''ok.jar'', ''-v'', ''com/x/Y''] # []"
    by (simp add: example_ok_jar example_processed l a)
  with r show ?thesis by simp
qed

text \<open>
  Claim C4. When the loop gets to an entry for which the disassembler prints the
  pattern not exactly once, the run ends there with the parse error: no list of invalid
  entries is returned and the disassembler is not started for any later entry.
\<close>

theorem parse_error_aborts:
  assumes "files w jar_file = Some (File (Archive (es1 @ info # es2)))"
    and "\<forall>e\<in>set es1. processed e \<longrightarrow> extracted w jar_file e \<noteq> None"
    and "processed info"
    and "proc w (files w) (javap_args jar_file (filename info)) = Some (0, out)"
    and "length (findall out) \<noteq> 1"
  shows "fst (invalid_language_level w jar_file lvl) =
       Inl (ValueError (''Expected exactly one match but found: '' @ str_list (findall out))) \<and>
     runs (log (snd (invalid_language_level w jar_file lvl))) =
       runs (log w) @ map (\<lambda>e. javap_args jar_file (filename e)) (filter processed es1)
         @ [javap_args jar_file (filename info)] \<and>
     (length pre \<le> 1 \<and> endswith jar_file ''.jar'' \<longrightarrow>
        fst (main w (pre @ [jar_file, lvl])) =
          Inl (ValueError (''Expected exactly one match but found: '' @ str_list (findall out))))"
proof -
  from assms(4,5) have none: "extracted w jar_file info = None"
    by (auto simp: extracted_def split: list.splits)
  from assms(4) have err: "entry_error w jar_file info = ValueError (match_msg (findall out))"
    by (simp add: entry_error_def)
  have 1: "fst (invalid_language_level w jar_file lvl) = Inl (ValueError (match_msg (findall out)))"
    using level_fail [OF assms(1,2,3) none, of lvl] err by simp
  have 2: "runs (log (snd (invalid_language_level w jar_file lvl))) =
       runs (log w) @ map (\<lambda>e. javap_args jar_file (filename e)) (filter processed es1)
         @ [javap_args jar_file (filename info)]"
    using assms(3)
    by (simp add: level_runs [OF assms(1)] reached_stop [OF assms(2,3) none])
  have 3: "fst (main w (pre @ [jar_file, lvl])) = Inl (ValueError (match_msg (findall out)))"
    if "length pre \<le> 1" and "endswith jar_file ''.jar''"
    using 1 by (cases "invalid_language_level w jar_file lvl") (simp add: main_jar [OF that])
  from 1 2 3 show ?thesis by (simp add: match_msg_def)
qed

theorem parse_error_aborts_witness:
  "fst (main example_world [''validate.py'', ''two.jar'', ''55'']) =
     Inl (ValueError (''Expected exactly one match but found: '' @ str_list [''52'', ''52''])) \<and>
   runs (log (snd (invalid_language_level example_world ''two.jar'' ''55''))) =
     [''javap'', ''-cp'', ''two.jar'', ''-v'', ''com/x/Z'']
       # [''javap'', ''-cp'', ''two.jar'', ''-v'', ''com/x/Two''] # []"
proof -
  have a: "javap_args ''two.jar'' (filename class_Z) = [''javap'', ''-cp'', ''two.jar'', ''-v'', ''com/x/Z'']"
    "javap_args ''two.jar'' (filename class_Two) = [''javap'', ''-cp'', ''two.jar'', ''-v'', ''com/x/Two'']"
    by (simp_all add: class_Z_def class_Two_def javap_args_def split_def is_space_def)
  have l: "log example_world = []" by (simp add: example_world_def)
  have f: "files example_world ''two.jar'' = Some (File (Archive ([class_Z] @ class_Two # [class_Y])))"
    by (simp add: example_two_jar)
  have e: "\<forall>e\<in>set [class_Z]. processed e \<longrightarrow> extracted example_world ''two.jar'' e \<noteq> None"
    by (simp add: example_two_jar)
  have n: "length (findall ''major version: 52 major version: 52'') \<noteq> 1"
    by (simp only: example_two_jar(4)) simp
  have j: "length [''validate.py''] \<le> 1 \<and> endswith ''two.jar'' ''.jar''"
    by (simp add: endswith_def suffix_to_prefix)
  from parse_error_aborts [OF f e example_processed(3) example_two_jar(3) n,
      of "''55''" "[''validate.py'']", unfolded example_two_jar(4)] j
  show ?thesis by (simp add: example_processed a l)
qed




text \<open>
  Claim C6. An entry with extracted version \<^verbatim>\<open>v\<close> is recorded as invalid exactly
  when \<^verbatim>\<open>v\<close> and the expected level are different strings; an expected level
  \<^verbatim>\<open>052\<close> does not accept the version \<^verbatim>\<open>52\<close>.
\<close>

theorem exact_string_comparison:
  assumes "files w jar_file = Some (File (Archive infos))"
    and "\<forall>e\<in>set infos. processed e \<longrightarrow> extracted w jar_file e \<noteq> None"
    and "info \<in> set infos" and "processed info" and "extracted w jar_file info = Some v"
  shows "\<exists>lines. fst (invalid_language_level w jar_file lvl) = Inr lines \<and>
           ((filename info @ '': '' @ v \<in> set lines) = (v \<noteq> lvl))"
proof -
  let ?lines = "map (invalid_line w jar_file) (filter (mismatched w jar_file lvl) infos)"
  have r: "fst (invalid_language_level w jar_file lvl) = Inr ?lines"
    by (rule level_ok [OF assms(1,2)])
  have il: "invalid_line w jar_file info = entry_line (filename info) v"
    using assms(5) by (simp add: invalid_line_def)
  have "(entry_line (filename info) v \<in> set ?lines) = (v \<noteq> lvl)"
  proof
    assume "entry_line (filename info) v \<in> set ?lines"
    then obtain e where e: "e \<in> set infos" "mismatched w jar_file lvl e"
      "entry_line (filename info) v = invalid_line w jar_file e" by auto
    from e(1,2) assms(2) obtain v' where v': "extracted w jar_file e = Some v'" "v' \<noteq> lvl"
      by (auto simp: mismatched_def)
    from e(3) v'(1) have "entry_line (filename info) v = entry_line (filename e) v'"
      by (simp add: invalid_line_def)
    from entry_line_inject [OF this] extracted_digits [OF assms(5)] extracted_digits [OF v'(1)]
    have "v = v'" by blast
    with v'(2) show "v \<noteq> lvl" by simp
  next
    assume "v \<noteq> lvl"
    with assms(3,4,5) have "info \<in> set (filter (mismatched w jar_file lvl) infos)"
      by (simp add: mismatched_def)
    then have "invalid_line w jar_file info
        \<in> invalid_line w jar_file ` set (filter (mismatched w jar_file lvl) infos)"
      by (rule imageI)
    then have "invalid_line w jar_file info \<in> set ?lines" by (simp only: set_map)
    with il show "entry_line (filename info) v \<in> set ?lines" by simp
  qed
  with r show ?thesis by (auto simp: entry_line_def)
qed

theorem exact_string_comparison_witness:
  "\<exists>lines. fst (invalid_language_level example_world ''lib.jar'' ''052'') = Inr lines \<and>
      ''com/x/Y.class: 52'' \<in> set lines"
proof -
  have a: "\<forall>e\<in>set [class_Y, class_Z]. processed e \<longrightarrow> extracted example_world ''lib.jar'' e \<noteq> None"
    "class_Y \<in> set [class_Y, class_Z]"
    by (simp_all add: example_lib_jar)
  from exact_string_comparison
    [OF example_lib_jar(1) a example_processed(1) example_lib_jar(2), of "''052''"]
  show ?thesis by (simp add: class_Y_def)
qed

text \<open>
  Claim C7. A path that ends in neither \<^verbatim>\<open>.jar\<close> nor \<^verbatim>\<open>.aar\<close> is rejected with
  an error that names it, and the world is left as it was: no archive has been opened
  and no process started.
\<close>

theorem bad_extension_rejected:
  assumes "length pre \<le> 1"
    and "\<not> endswith jar_file ''.jar''" and "\<not> endswith jar_file ''.aar''"
  shows "main w (pre @ [jar_file, lvl]) = (Inl (ValueError (''Invalid jar file: '' @ jar_file)), w)"
  using main_other [OF assms] by (simp add: invalid_jar_msg_def)

theorem bad_extension_rejected_witness:
  "main example_world [''validate.py'', ''lib.zip'', ''52''] =
     (Inl (ValueError ''Invalid jar file: lib.zip''), example_world)"
  using bad_extension_rejected [of "[''validate.py'']" "''lib.zip''" example_world "''52''"]
  by (simp add: endswith_def suffix_to_prefix)

text \<open>
  Claim C8. The command line hands \<^verbatim>\<open>main\<close> the path of the script followed by the
  positional arguments. The script is \<^verbatim>\<open>validate-jar-language-level.py\<close>; all that is
  used of its path is that it ends in neither \<^verbatim>\<open>.jar\<close> nor \<^verbatim>\<open>.aar\<close>. Any number of
  positional arguments other than two then raises a \<^verbatim>\<open>ValueError\<close> and leaves the
  world as it was: no archive has been opened and no process started.
\<close>

theorem cli_argument_count:
  assumes "\<not> endswith script ''.jar''" and "\<not> endswith script ''.aar''"
    and "length positional \<noteq> 2"
  shows "main w (script # positional) =
     (Inl (ValueError
        (if length positional > 2
         then ''Expected only two arguments but got '' @ str_nat (length (script # positional))
         else if length positional = 1 then ''Invalid jar file: '' @ script
         else ''not enough values to unpack (expected 2, got 1)'')), w)"
proof -
  consider "length positional > 2" | "length positional = 1" | "length positional = 0"
    using assms(3) by arith
  then show ?thesis
  proof cases
    case 1
    then show ?thesis by (simp add: main_def count_msg_def del: str_nat.simps)
  next
    case 2
    then obtain a where a: "positional = [a]" by (cases positional) auto
    from main_other [OF _ assms(1,2), of "[]" w a] a show ?thesis
      by (simp add: invalid_jar_msg_def)
  next
    case 3
    then have "positional = []" by simp
    then show ?thesis by (simp add: main_def unpack_msg_def digit_char_def)
  qed
qed

theorem cli_argument_count_witness:
  "main example_world [''util/validate-jar-language-level.py'', ''lib.jar'', ''52'', ''55''] =
     (Inl (ValueError ''Expected only two arguments but got 4''), example_world) \<and>
   main example_world [''util/validate-jar-language-level.py'', ''lib.jar''] =
     (Inl (ValueError ''Invalid jar file: util/validate-jar-language-level.py''), example_world) \<and>
   main example_world [''util/validate-jar-language-level.py''] =
     (Inl (ValueError ''not enough values to unpack (expected 2, got 1)''), example_world)"
proof -
  have s: "\<not> endswith ''util/validate-jar-language-level.py'' ''.jar''"
    "\<not> endswith ''util/validate-jar-language-level.py'' ''.aar''"
    by (simp_all add: endswith_def suffix_to_prefix)
  have n: "length [''lib.jar'', ''52'', ''55''] \<noteq> 2" "length [''lib.jar''] \<noteq> 2"
    "length ([] :: string list) \<noteq> 2"
    by simp_all
  from cli_argument_count [OF s n(1), of example_world]
    cli_argument_count [OF s n(2), of example_world]
    cli_argument_count [OF s n(3), of example_world]
  show ?thesis by (simp add: digit_char_def)
qed

text \<open>
  Claim C9. For an aar, when opening, extracting or scanning raises, the run ends with
  that error and the scratch directory is still there; when they return, the directory
  and the file extracted into it are gone when the run ends.
\<close>

theorem scratch_directory:
  assumes "length pre \<le> 1" and "endswith aar ''.aar''"
  shows "case fst (extract_and_scan (snd (mkdtemp w)) aar (tmpname w) lvl) of
           Inl e \<Rightarrow>
             fst (main w (pre @ [aar, lvl])) = Inl e \<and>
             files (snd (main w (pre @ [aar, lvl]))) (tmpname w) = Some Folder
         | Inr invalid_entries \<Rightarrow>
             files (snd (main w (pre @ [aar, lvl]))) (tmpname w) = None \<and>
             files (snd (main w (pre @ [aar, lvl]))) (tmpname w @ ''/classes.jar'') = None"
proof -
  let ?w1 = "snd (mkdtemp w)"
  obtain r w2 where e: "extract_and_scan ?w1 aar (tmpname w) lvl = (r, w2)"
    by (cases "extract_and_scan ?w1 aar (tmpname w) lvl")
  have "files (snd (extract_and_scan ?w1 aar (tmpname w) lvl)) (tmpname w) = files ?w1 (tmpname w)"
    by (rule extract_and_scan_files)
  with e have f: "files w2 (tmpname w) = Some Folder"
    by (simp add: mkdtemp_def)
  show ?thesis
  proof (cases r)
    case (Inl err)
    with e f show ?thesis by (simp add: main_aar [OF assms])
  next
    case (Inr invalid_entries)
    with e show ?thesis by (simp add: main_aar [OF assms] rmtree_def)
  qed
qed

theorem scratch_directory_witness:
  "fst (main example_world [''validate.py'', ''res.aar'', ''52'']) = Inl (KeyError ''classes.jar'') \<and>
   files (snd (main example_world [''validate.py'', ''res.aar'', ''52''])) ''/tmp/t0'' = Some Folder \<and>
   files (snd (main example_world [''validate.py'', ''lib.aar'', ''52''])) ''/tmp/t0'' = None \<and>
   files (snd (main example_world [''validate.py'', ''lib.aar'', ''52''])) ''/tmp/t0/classes.jar''
     = None"
proof -
  have a: "length [''validate.py''] \<le> 1" "endswith ''lib.aar'' ''.aar''"
    "endswith ''res.aar'' ''.aar''"
    by (simp_all add: endswith_def suffix_to_prefix)
  from scratch_directory [OF a(1,3), of example_world "''52''", unfolded example_res_aar(1)]
    scratch_directory [OF a(1,2), of example_world "''52''", unfolded example_res_aar(2)]
  show ?thesis
    by (simp add: example_lib_aar(3))
qed



end
